theory Spec2Isabelle
  imports Main
begin

section \<open>Data model\<close>

text \<open>
  The types of \<^verbatim>\<open>src/cmd/root.go\<close>. \<^verbatim>\<open>gitlab.GroupMember\<close> and its
  \<^verbatim>\<open>GroupSAMLIdentity\<close> come from the go-gitlab library; only the fields the program
  reads are kept. \<^verbatim>\<open>GroupSAMLIdentity\<close> is a pointer that may be nil: an option.
  The elements of the slices of groups and members are pointers the library decodes from
  the service's answer; they are taken to be non-nil. Go's \<^verbatim>\<open>int\<close> is modelled as
  \<open>int\<close>: the program compares identifiers and access levels and never does arithmetic
  on them. \<^verbatim>\<open>src/psync.go\<close> holds the same functions under lower-case names, without
  the deprovisioned users and the removals.
\<close>

record GroupMemberSAMLIdentity =
  ExternUID :: string

record GroupMember =
  ID :: int
  AccessLevel :: int
  GroupSAMLIdentity :: "GroupMemberSAMLIdentity option"

record Group =
  Group_ID :: int

record OktaGroup =
  OktaGroup_ID :: string
  Name :: string
  Users :: "string list"
  Deprovisioned :: "string list"

record GitlabMember =
  User :: GroupMember
  SAMLID :: string

text \<open>
  The ways a run ends early: the two runtime panics of Go the code can hit, and
  \<^verbatim>\<open>cobra.CheckErr\<close> on a non-nil error (it prints the error and exits).
\<close>

datatype error = IndexOutOfRange | NilPointerDereference | CheckErr string

text \<open>\<^verbatim>\<open>gitlab.DeveloperPermissions\<close>, the access level every added member gets (go-gitlab: 30).\<close>

definition DeveloperPermissions :: int where
  "DeveloperPermissions = 30"

section \<open>The correlator: Intersection and Difference\<close>

text \<open>
  Both functions build a presence index \<^verbatim>\<open>m := make(map[string]bool)\<close> from one slice
  and then walk the other slice in order, appending the items that pass the lookup
  \<^verbatim>\<open>_, ok := m[item]\<close>. The map is only looked up, never iterated.
\<close>

definition mkIndex :: "string list \<Rightarrow> (string \<rightharpoonup> bool)" where
  "mkIndex xs = fold (\<lambda>item m. m(item \<mapsto> True)) xs Map.empty"

definition Intersection :: "string list \<Rightarrow> string list \<Rightarrow> string list" where
  "Intersection a b =
     (let m = mkIndex a
      in fold (\<lambda>item c. if m item \<noteq> None then c @ [item] else c) b [])"

definition Difference :: "string list \<Rightarrow> string list \<Rightarrow> string list" where
  "Difference a b =
     (let m = mkIndex b
      in fold (\<lambda>item c. if \<not> (m item \<noteq> None) then c @ [item] else c) a [])"

section \<open>Fetching a group's members\<close>

text \<open>
  \<^verbatim>\<open>GetGitlabGroupMembers\<close>. The two calls to the service are parameters: \<open>listGroups\<close> is
  what \<^verbatim>\<open>clt.Groups.ListGroups\<close> returns for the name (its error, or the slice of
  groups), \<open>listAllGroupMembers\<close> what \<^verbatim>\<open>clt.Groups.ListAllGroupMembers\<close> returns for
  a group id. A non-nil error goes to \<^verbatim>\<open>cobra.CheckErr\<close>; \<^verbatim>\<open>groups[0]\<close> on an empty
  slice is Go's index-out-of-range panic.
\<close>

definition GetGitlabGroupMembers ::
  "(string + Group list) \<Rightarrow> (int \<Rightarrow> string + GroupMember list) \<Rightarrow> error + (GroupMember list \<times> int)"
where
  "GetGitlabGroupMembers listGroups listAllGroupMembers =
     (case listGroups of
        Inl err \<Rightarrow> Inl (CheckErr err)
      | Inr groups \<Rightarrow>
          (case groups of
             [] \<Rightarrow> Inl IndexOutOfRange
           | g0 # _ \<Rightarrow>
               (let id = Group_ID g0
                in case listAllGroupMembers id of
                     Inl err \<Rightarrow> Inl (CheckErr err)
                   | Inr users \<Rightarrow>
                       Inr (fold (\<lambda>u members. if AccessLevel u < 50 then members @ [u] else members)
                              users [], id))))"

section \<open>One pass for one group\<close>

text \<open>
  \<^verbatim>\<open>afklUids := make([]string, len(afklMembers))\<close> followed by the loop that writes
  slot \<open>i\<close> only when member \<open>i\<close> has a SAML identity: the other slots keep Go's zero
  value, the empty string.
\<close>

fun afklUidsLoop :: "nat \<Rightarrow> GroupMember list \<Rightarrow> string list \<Rightarrow> string list" where
  "afklUidsLoop i [] afklUids = afklUids"
| "afklUidsLoop i (m # ms) afklUids =
     afklUidsLoop (Suc i) ms
       (case GroupSAMLIdentity m of
          None \<Rightarrow> afklUids
        | Some s \<Rightarrow> afklUids[i := ExternUID s])"

definition afklUidsOf :: "GroupMember list \<Rightarrow> string list" where
  "afklUidsOf afklMembers = afklUidsLoop 0 afklMembers (replicate (length afklMembers) [])"

text \<open>
  The nested loop that joins the dev group's members with the AFKL-MCP members on the
  account id and collects, in two parallel slices, the \<^verbatim>\<open>GitlabMember\<close> values and
  their identifiers. Members of AFKL-MCP with a nil identity are skipped here.
\<close>

fun joinInner ::
  "GroupMember \<Rightarrow> GroupMember list \<Rightarrow> GitlabMember list \<times> string list \<Rightarrow> GitlabMember list \<times> string list"
where
  "joinInner glm [] acc = acc"
| "joinInner glm (v # vs) (glabgroupMembers, glabgroupUids) =
     joinInner glm vs
       (case GroupSAMLIdentity v of
          Some s \<Rightarrow>
            if ID v = ID glm
            then (glabgroupMembers @ [\<lparr>User = glm, SAMLID = ExternUID s\<rparr>],
                  glabgroupUids @ [ExternUID s])
            else (glabgroupMembers, glabgroupUids)
        | None \<Rightarrow> (glabgroupMembers, glabgroupUids))"

fun joinOuter ::
  "GroupMember list \<Rightarrow> GroupMember list \<Rightarrow> GitlabMember list \<times> string list \<Rightarrow> GitlabMember list \<times> string list"
where
  "joinOuter [] afklMembers acc = acc"
| "joinOuter (glm # glabgroup) afklMembers acc =
     joinOuter glabgroup afklMembers (joinInner glm afklMembers acc)"

definition glabgroupMembersOf :: "GroupMember list \<Rightarrow> GroupMember list \<Rightarrow> GitlabMember list" where
  "glabgroupMembersOf afklMembers glabgroup = fst (joinOuter glabgroup afklMembers ([], []))"

definition glabgroupUidsOf :: "GroupMember list \<Rightarrow> GroupMember list \<Rightarrow> string list" where
  "glabgroupUidsOf afklMembers glabgroup = snd (joinOuter glabgroup afklMembers ([], []))"

definition usersToAddOf :: "OktaGroup \<Rightarrow> GroupMember list \<Rightarrow> GroupMember list \<Rightarrow> string list" where
  "usersToAddOf g afklMembers glabgroup =
     (let oktaUsersInGitlab = Intersection (Users g) (afklUidsOf afklMembers)
      in Difference oktaUsersInGitlab (glabgroupUidsOf afklMembers glabgroup))"

definition usersToRemoveOf :: "OktaGroup \<Rightarrow> GroupMember list \<Rightarrow> GroupMember list \<Rightarrow> string list" where
  "usersToRemoveOf g afklMembers glabgroup =
     Intersection (Deprovisioned g) (glabgroupUidsOf afklMembers glabgroup)"

text \<open>
  The add loop. For each identifier \<open>x\<close> of \<^verbatim>\<open>usersToAdd\<close> it walks all of
  \<^verbatim>\<open>afklMembers\<close> and reads \<^verbatim>\<open>y.GroupSAMLIdentity.ExternUID\<close> with no nil check: a
  member with a nil identity is a nil-pointer dereference, and the run ends there. The
  result is the list of accounts for which \<^verbatim>\<open>AddGroupMember\<close> was called (with
  \<^verbatim>\<open>DeveloperPermissions\<close>) so far, and the panic if there was one. The call itself goes
  to the service and is taken to succeed.
\<close>

fun addInner :: "string \<Rightarrow> GroupMember list \<Rightarrow> GroupMember list \<times> error option" where
  "addInner x [] = ([], None)"
| "addInner x (y # ys) =
     (case GroupSAMLIdentity y of
        None \<Rightarrow> ([], Some NilPointerDereference)
      | Some s \<Rightarrow>
          (let (added, err) = addInner x ys
           in (if x = ExternUID s then y # added else added, err)))"

fun addLoop :: "string list \<Rightarrow> GroupMember list \<Rightarrow> GroupMember list \<times> error option" where
  "addLoop [] afklMembers = ([], None)"
| "addLoop (x # xs) afklMembers =
     (case addInner x afklMembers of
        (added, Some e) \<Rightarrow> (added, Some e)
      | (added, None) \<Rightarrow>
          (let (added', err) = addLoop xs afklMembers in (added @ added', err)))"

text \<open>
  The remove loop: for each identifier of \<^verbatim>\<open>usersToRemove\<close>, every joined member that
  carries it gets a call of \<^verbatim>\<open>RemoveGroupMember\<close>, taken to succeed like the adds.
\<close>

fun removeLoop :: "string list \<Rightarrow> GitlabMember list \<Rightarrow> GitlabMember list" where
  "removeLoop [] glabgroupMembers = []"
| "removeLoop (uid # uids) glabgroupMembers =
     filter (\<lambda>member. uid = SAMLID member) glabgroupMembers @ removeLoop uids glabgroupMembers"

text \<open>
  The outcome of the pass for one group: the accounts added (the AddPlan), the members
  removed (the RemovePlan), and how the pass ended.
\<close>

record outcome =
  AddPlan :: "GroupMember list"
  RemovePlan :: "GitlabMember list"
  failure :: "error option"

text \<open>
  The body of the loop over \<^verbatim>\<open>oktaGroups\<close> in \<^verbatim>\<open>rootCmd.Run\<close>, from the members of
  AFKL-MCP and of the dev group as \<^verbatim>\<open>GetGitlabGroupMembers\<close> returned them. The spec
  calls it \<open>reconcile\<close>. The removals are computed after the add loop, so a panic in
  the add loop leaves them undone.
\<close>

definition reconcile :: "OktaGroup \<Rightarrow> GroupMember list \<Rightarrow> GroupMember list \<Rightarrow> outcome" where
  "reconcile g afklMembers glabgroup =
     (let glabgroupMembers = glabgroupMembersOf afklMembers glabgroup;
          usersToAdd = usersToAddOf g afklMembers glabgroup
      in case addLoop usersToAdd afklMembers of
           (added, Some e) \<Rightarrow> \<lparr>AddPlan = added, RemovePlan = [], failure = Some e\<rparr>
         | (added, None) \<Rightarrow>
             (let usersToRemove = usersToRemoveOf g afklMembers glabgroup
              in \<lparr>AddPlan = added,
                  RemovePlan = removeLoop usersToRemove glabgroupMembers,
                  failure = None\<rparr>))"

text \<open>The identifiers carried by a list of accounts: those of the identities that are present.\<close>

definition federatedIdsOf :: "GroupMember list \<Rightarrow> string list" where
  "federatedIdsOf ms =
     concat (map (\<lambda>m. case GroupSAMLIdentity m of None \<Rightarrow> [] | Some s \<Rightarrow> [ExternUID s]) ms)"

text \<open>
  The identifiers the code resolves for the members of the dev group, said without the
  loops: for each member, the identifiers of the AFKL-MCP accounts with its account id.
  The identity the dev group's listing itself may carry for a member is never read.
\<close>

definition resolvedIdsOf :: "GroupMember list \<Rightarrow> GroupMember list \<Rightarrow> string list" where
  "resolvedIdsOf entitlementSet accessGroupMembers =
     concat (map (\<lambda>glm. federatedIdsOf (filter (\<lambda>v. ID v = ID glm) entitlementSet))
               accessGroupMembers)"


text \<open>
  Modelled from the spec: the membership of the dev group after the calls of one pass,
  "inserting the planned accounts and removing the planned ones". The service that
  executes \<^verbatim>\<open>AddGroupMember(grID, {UserID: y.ID, AccessLevel: perm})\<close> and
  \<^verbatim>\<open>RemoveGroupMember(grID, member.User.ID)\<close> is not part of the sources: an added
  account becomes a member with its id at \<^verbatim>\<open>DeveloperPermissions\<close>, and a removal
  takes away the members with that id. The adds come first, as in the pass.
\<close>

definition applyPlans :: "GroupMember list \<Rightarrow> outcome \<Rightarrow> GroupMember list" where
  "applyPlans glabgroup out =
     filter (\<lambda>m. ID m \<notin> set (map (\<lambda>member. ID (User member)) (RemovePlan out)))
       (glabgroup @ map (\<lambda>y. y\<lparr>AccessLevel := DeveloperPermissions\<rparr>) (AddPlan out))"

text \<open>A service in which every group has the members \<open>users\<close>.\<close>

definition everyGroupHas :: "GroupMember list \<Rightarrow> int \<Rightarrow> string + GroupMember list" where
  "everyGroupHas users gid = Inr users"

section \<open>Values for the examples\<close>

text \<open>
  An AFKL-MCP account with a SAML identity, one without, the membership record of an
  account in a dev group (the listing of a dev group is only read for the ids), and an
  Okta group with the given active and deprovisioned users.
\<close>

definition account :: "int \<Rightarrow> string \<Rightarrow> GroupMember" where
  "account i u = \<lparr>ID = i, AccessLevel = 10, GroupSAMLIdentity = Some \<lparr>ExternUID = u\<rparr>\<rparr>"

definition orphan :: "int \<Rightarrow> GroupMember" where
  "orphan i = \<lparr>ID = i, AccessLevel = 10, GroupSAMLIdentity = None\<rparr>"

definition devMember :: "int \<Rightarrow> GroupMember" where
  "devMember i = \<lparr>ID = i, AccessLevel = 30, GroupSAMLIdentity = None\<rparr>"

definition oktaGroup :: "string list \<Rightarrow> string list \<Rightarrow> OktaGroup" where
  "oktaGroup users deprovisioned =
     \<lparr>OktaGroup_ID = ''00g1'', Name = ''team'', Users = users, Deprovisioned = deprovisioned\<rparr>"

section \<open>Closed forms of the loops\<close>

text \<open>What slot \<open>i\<close> of \<^verbatim>\<open>afklUids\<close> holds after the loop.\<close>

definition uidSlot :: "GroupMember \<Rightarrow> string" where
  "uidSlot m = (case GroupSAMLIdentity m of None \<Rightarrow> [] | Some s \<Rightarrow> ExternUID s)"

text \<open>What the inner join loop appends for one member of the dev group.\<close>

fun joined :: "GroupMember \<Rightarrow> GroupMember list \<Rightarrow> GitlabMember list" where
  "joined glm [] = []"
| "joined glm (v # vs) =
     (case GroupSAMLIdentity v of
        Some s \<Rightarrow> if ID v = ID glm then \<lparr>User = glm, SAMLID = ExternUID s\<rparr> # joined glm vs
                  else joined glm vs
      | None \<Rightarrow> joined glm vs)"

section \<open>Properties of the correlator\<close>

lemma mkIndex_fold:
  "(fold (\<lambda>item m. m(item \<mapsto> True)) xs m0) k = None \<longleftrightarrow> k \<notin> set xs \<and> m0 k = None"
  by (induction xs arbitrary: m0) auto

lemma mkIndex_absent: "mkIndex xs k = None \<longleftrightarrow> k \<notin> set xs"
  by (simp add: mkIndex_def mkIndex_fold)

lemma mkIndex_present: "(\<exists>y. mkIndex xs k = Some y) \<longleftrightarrow> k \<in> set xs"
  using mkIndex_absent [of xs k] by auto

lemma fold_append_filter:
  "fold (\<lambda>item c. if P item then c @ [item] else c) xs acc = acc @ filter P xs"
  by (induction xs arbitrary: acc) auto

lemma Intersection_filter: "Intersection a b = filter (\<lambda>item. item \<in> set a) b"
  by (simp add: Intersection_def fold_append_filter mkIndex_present)

lemma Difference_filter: "Difference a b = filter (\<lambda>item. item \<notin> set b) a"
  by (simp add: Difference_def fold_append_filter mkIndex_absent)

lemma set_Intersection: "set (Intersection a b) = set a \<inter> set b"
  by (auto simp: Intersection_filter)

lemma set_Difference: "set (Difference a b) = set a - set b"
  by (auto simp: Difference_filter)

section \<open>Properties of the loops\<close>

lemma afklUidsLoop_slots:
  "i + length ms \<le> length acc \<Longrightarrow>
   afklUidsLoop i ms acc =
     take i acc @ map (\<lambda>(m, a). case GroupSAMLIdentity m of None \<Rightarrow> a | Some s \<Rightarrow> ExternUID s)
                    (zip ms (drop i acc)) @ drop (i + length ms) acc"
proof (induction ms arbitrary: i acc)
  case Nil
  then show ?case by simp
next
  case (Cons m ms)
  then have i: "i < length acc" by simp
  then obtain a rest where d: "drop i acc = a # rest"
    by (metis Cons_nth_drop_Suc)
  then have r: "rest = drop (Suc i) acc"
    by (metis drop_Suc list.sel(3) tl_drop)
  show ?case
  proof (cases "GroupSAMLIdentity m")
    case None
    have "a = acc ! i" using d i by (metis Cons_nth_drop_Suc list.inject)
    then have "take (Suc i) acc = take i acc @ [a]" using i by (simp add: take_Suc_conv_app_nth)
    with None Cons d r show ?thesis by simp
  next
    case (Some s)
    have "take (Suc i) (acc[i := ExternUID s]) = take i acc @ [ExternUID s]"
      using i by (simp add: take_Suc_conv_app_nth)
    with Some Cons d r show ?thesis by simp
  qed
qed

lemma afklUidsOf_map: "afklUidsOf ms = map uidSlot ms"
proof -
  have "map (\<lambda>(m, a). case GroupSAMLIdentity m of None \<Rightarrow> a | Some s \<Rightarrow> ExternUID s)
          (zip ms (replicate (length ms) [])) = map uidSlot ms"
    by (induction ms) (auto simp: uidSlot_def split: option.splits)
  then show ?thesis
    by (simp add: afklUidsOf_def afklUidsLoop_slots)
qed

lemma joinInner_joined:
  "joinInner glm vs (ms, uids) = (ms @ joined glm vs, uids @ map SAMLID (joined glm vs))"
  by (induction vs arbitrary: ms uids) (auto split: option.splits)

lemma joinOuter_joined:
  "joinOuter glab afkl (ms, uids) =
     (ms @ concat (map (\<lambda>glm. joined glm afkl) glab),
      uids @ map SAMLID (concat (map (\<lambda>glm. joined glm afkl) glab)))"
  by (induction glab arbitrary: ms uids) (auto simp: joinInner_joined map_concat)

lemma glabgroupMembersOf_concat:
  "glabgroupMembersOf afkl glab = concat (map (\<lambda>glm. joined glm afkl) glab)"
  by (simp add: glabgroupMembersOf_def joinOuter_joined)

lemma glabgroupUidsOf_SAMLID:
  "glabgroupUidsOf afkl glab = map SAMLID (glabgroupMembersOf afkl glab)"
  by (simp add: glabgroupUidsOf_def glabgroupMembersOf_def joinOuter_joined)

lemma in_joined:
  "member \<in> set (joined glm vs) \<longleftrightarrow>
     User member = glm \<and>
     (\<exists>v s. v \<in> set vs \<and> ID v = ID glm \<and> GroupSAMLIdentity v = Some s \<and> SAMLID member = ExternUID s)"
proof (induction vs)
  case Nil
  then show ?case by simp
next
  case (Cons v vs)
  show ?case
  proof (cases "GroupSAMLIdentity v")
    case None
    with Cons show ?thesis by auto
  next
    case (Some s)
    with Cons show ?thesis by (cases member) auto
  qed
qed

lemma in_glabgroupMembersOf:
  "member \<in> set (glabgroupMembersOf afkl glab) \<longleftrightarrow>
     User member \<in> set glab \<and>
     (\<exists>v s. v \<in> set afkl \<and> ID v = ID (User member) \<and>
            GroupSAMLIdentity v = Some s \<and> SAMLID member = ExternUID s)"
  by (auto simp: glabgroupMembersOf_concat in_joined)

lemma in_glabgroupUidsOf:
  "u \<in> set (glabgroupUidsOf afkl glab) \<longleftrightarrow>
     (\<exists>glm v s. glm \<in> set glab \<and> v \<in> set afkl \<and> ID v = ID glm \<and>
            GroupSAMLIdentity v = Some s \<and> u = ExternUID s)"
proof
  assume "u \<in> set (glabgroupUidsOf afkl glab)"
  then obtain member where "member \<in> set (glabgroupMembersOf afkl glab)" "u = SAMLID member"
    by (auto simp: glabgroupUidsOf_SAMLID)
  then show "\<exists>glm v s. glm \<in> set glab \<and> v \<in> set afkl \<and> ID v = ID glm \<and>
            GroupSAMLIdentity v = Some s \<and> u = ExternUID s"
    by (auto simp: in_glabgroupMembersOf)
next
  assume "\<exists>glm v s. glm \<in> set glab \<and> v \<in> set afkl \<and> ID v = ID glm \<and>
            GroupSAMLIdentity v = Some s \<and> u = ExternUID s"
  then obtain glm v s where h: "glm \<in> set glab" "v \<in> set afkl" "ID v = ID glm"
      "GroupSAMLIdentity v = Some s" "u = ExternUID s" by blast
  then have "\<lparr>User = glm, SAMLID = u\<rparr> \<in> set (glabgroupMembersOf afkl glab)"
    by (auto simp: in_glabgroupMembersOf)
  then have "SAMLID \<lparr>User = glm, SAMLID = u\<rparr> \<in> set (glabgroupUidsOf afkl glab)"
    unfolding glabgroupUidsOf_SAMLID by (simp only: set_map image_eqI)
  then show "u \<in> set (glabgroupUidsOf afkl glab)" by simp
qed

lemma addInner_failure:
  "snd (addInner x ys) =
     (if \<exists>y \<in> set ys. GroupSAMLIdentity y = None then Some NilPointerDereference else None)"
  by (induction ys) (auto split: option.splits prod.splits)

lemma addInner_added:
  "y \<in> set (fst (addInner x ys)) \<Longrightarrow>
     y \<in> set ys \<and> (\<exists>s. GroupSAMLIdentity y = Some s \<and> x = ExternUID s)"
  by (induction ys) (auto split: option.splits prod.splits if_splits)

lemma addInner_complete:
  "\<forall>y \<in> set ys. GroupSAMLIdentity y \<noteq> None \<Longrightarrow>
   addInner x ys = (filter (\<lambda>y. \<exists>s. GroupSAMLIdentity y = Some s \<and> x = ExternUID s) ys, None)"
  by (induction ys) (auto split: option.splits prod.splits)

lemma addLoop_failure:
  "snd (addLoop xs afkl) =
     (if xs \<noteq> [] \<and> (\<exists>y \<in> set afkl. GroupSAMLIdentity y = None)
      then Some NilPointerDereference else None)"
proof (induction xs)
  case Nil
  then show ?case by simp
next
  case (Cons x xs)
  show ?case
    using Cons addInner_failure [of x afkl]
    by (cases "addInner x afkl") (auto split: option.splits prod.splits if_splits)
qed

lemma addLoop_added:
  "y \<in> set (fst (addLoop xs afkl)) \<Longrightarrow>
     y \<in> set afkl \<and> (\<exists>s. GroupSAMLIdentity y = Some s \<and> ExternUID s \<in> set xs)"
proof (induction xs)
  case Nil
  then show ?case by simp
next
  case (Cons x xs)
  show ?case
    using Cons addInner_added [of y x afkl]
    by (cases "addInner x afkl") (auto split: option.splits prod.splits if_splits)
qed

lemma addLoop_complete:
  "\<forall>y \<in> set afkl. GroupSAMLIdentity y \<noteq> None \<Longrightarrow>
   addLoop xs afkl =
     (concat (map (\<lambda>x. filter (\<lambda>y. \<exists>s. GroupSAMLIdentity y = Some s \<and> x = ExternUID s) afkl) xs), None)"
  by (induction xs) (auto simp: addInner_complete)

lemma in_removeLoop:
  "member \<in> set (removeLoop uids ms) \<longleftrightarrow> member \<in> set ms \<and> SAMLID member \<in> set uids"
  by (induction uids) auto

section \<open>Properties of one pass\<close>

lemma in_federatedIdsOf:
  "u \<in> set (federatedIdsOf ms) \<longleftrightarrow>
     (\<exists>m \<in> set ms. \<exists>s. GroupSAMLIdentity m = Some s \<and> u = ExternUID s)"
proof (induction ms)
  case Nil
  then show ?case by (simp add: federatedIdsOf_def)
next
  case (Cons m ms)
  then show ?case by (cases "GroupSAMLIdentity m") (auto simp: federatedIdsOf_def)
qed

lemma in_afklUidsOf:
  "u \<in> set (afklUidsOf afkl) \<longleftrightarrow>
     u \<in> set (federatedIdsOf afkl) \<or> (u = [] \<and> (\<exists>y \<in> set afkl. GroupSAMLIdentity y = None))"
proof (induction afkl)
  case Nil
  then show ?case by (simp add: afklUidsOf_map federatedIdsOf_def)
next
  case (Cons m ms)
  then show ?case
    by (cases "GroupSAMLIdentity m") (auto simp: afklUidsOf_map federatedIdsOf_def uidSlot_def)
qed

lemma set_usersToAddOf:
  "set (usersToAddOf g afkl glab) =
     (set (Users g) \<inter> set (afklUidsOf afkl)) - set (glabgroupUidsOf afkl glab)"
  by (simp add: usersToAddOf_def set_Difference set_Intersection)

lemma set_usersToRemoveOf:
  "set (usersToRemoveOf g afkl glab) = set (Deprovisioned g) \<inter> set (glabgroupUidsOf afkl glab)"
  by (simp add: usersToRemoveOf_def set_Intersection)

lemma reconcile_AddPlan:
  "AddPlan (reconcile g afkl glab) = fst (addLoop (usersToAddOf g afkl glab) afkl)"
  by (simp add: reconcile_def Let_def split: prod.splits option.splits)

lemma reconcile_failure:
  "failure (reconcile g afkl glab) = snd (addLoop (usersToAddOf g afkl glab) afkl)"
  by (simp add: reconcile_def Let_def split: prod.splits option.splits)

lemma reconcile_RemovePlan:
  "RemovePlan (reconcile g afkl glab) =
     (if failure (reconcile g afkl glab) = None
      then removeLoop (usersToRemoveOf g afkl glab) (glabgroupMembersOf afkl glab) else [])"
  by (simp add: reconcile_def Let_def split: prod.splits option.splits)

lemma reconcile_failure_iff:
  "failure (reconcile g afkl glab) =
     (if usersToAddOf g afkl glab \<noteq> [] \<and> (\<exists>y \<in> set afkl. GroupSAMLIdentity y = None)
      then Some NilPointerDereference else None)"
  by (simp add: reconcile_failure addLoop_failure)

lemma in_AddPlan:
  "y \<in> set (AddPlan (reconcile g afkl glab)) \<Longrightarrow>
     y \<in> set afkl \<and>
     (\<exists>s. GroupSAMLIdentity y = Some s \<and> ExternUID s \<in> set (usersToAddOf g afkl glab))"
  using addLoop_added [of y "usersToAddOf g afkl glab" afkl] by (simp add: reconcile_AddPlan)

lemma in_RemovePlan:
  "member \<in> set (RemovePlan (reconcile g afkl glab)) \<Longrightarrow>
     member \<in> set (glabgroupMembersOf afkl glab) \<and>
     SAMLID member \<in> set (usersToRemoveOf g afkl glab)"
  by (simp add: reconcile_RemovePlan in_removeLoop split: if_splits)

lemma in_addLoop_complete:
  assumes "\<forall>y \<in> set afkl. GroupSAMLIdentity y \<noteq> None"
    and "y \<in> set afkl" and "GroupSAMLIdentity y = Some s" and "ExternUID s \<in> set xs"
  shows "y \<in> set (fst (addLoop xs afkl))"
  using assms(2-4) unfolding addLoop_complete [OF assms(1)] by auto

lemma AddPlan_complete:
  assumes "failure (reconcile g afkl glab) = None"
    and "y \<in> set afkl" and "GroupSAMLIdentity y = Some s"
    and "ExternUID s \<in> set (usersToAddOf g afkl glab)"
  shows "y \<in> set (AddPlan (reconcile g afkl glab))"
proof -
  from assms(4) have "usersToAddOf g afkl glab \<noteq> []" by auto
  with assms(1) have nonil: "\<forall>y \<in> set afkl. GroupSAMLIdentity y \<noteq> None"
    by (auto simp: reconcile_failure_iff split: if_splits)
  show ?thesis
    unfolding reconcile_AddPlan by (rule in_addLoop_complete [OF nonil assms(2-4)])
qed

lemma RemovePlan_complete:
  assumes "failure (reconcile g afkl glab) = None"
    and "member \<in> set (glabgroupMembersOf afkl glab)"
    and "SAMLID member \<in> set (usersToRemoveOf g afkl glab)"
  shows "member \<in> set (RemovePlan (reconcile g afkl glab))"
  using assms by (simp add: reconcile_RemovePlan in_removeLoop)

lemmas run_simps =
  account_def orphan_def devMember_def oktaGroup_def applyPlans_def DeveloperPermissions_def
  reconcile_def usersToAddOf_def usersToRemoveOf_def afklUidsOf_map uidSlot_def
  glabgroupUidsOf_SAMLID glabgroupMembersOf_concat Intersection_filter Difference_filter

lemma GetGitlabGroupMembers_Cons:
  "GetGitlabGroupMembers (Inr (g0 # rest)) listAllGroupMembers =
     (case listAllGroupMembers (Group_ID g0) of
        Inl err \<Rightarrow> Inl (CheckErr err)
      | Inr users \<Rightarrow> Inr (filter (\<lambda>u. AccessLevel u < 50) users, Group_ID g0))"
  by (simp add: GetGitlabGroupMembers_def fold_append_filter split: sum.splits)

lemma grant_level_passes:
  "filter (\<lambda>u. AccessLevel u < 50 \<and> AccessLevel u = DeveloperPermissions) users =
   filter (\<lambda>u. AccessLevel u = DeveloperPermissions) users"
  by (induction users) (auto simp: DeveloperPermissions_def)

lemma AddPlan_ids:
  assumes "failure (reconcile g afkl glab) = None"
  shows "set (federatedIdsOf (AddPlan (reconcile g afkl glab))) =
           (set (Users g) \<inter> set (federatedIdsOf afkl)) - set (glabgroupUidsOf afkl glab)"
proof (rule set_eqI, rule iffI)
  fix u assume "u \<in> set (federatedIdsOf (AddPlan (reconcile g afkl glab)))"
  then obtain y s where y: "y \<in> set (AddPlan (reconcile g afkl glab))"
      "GroupSAMLIdentity y = Some s" "u = ExternUID s"
    by (auto simp: in_federatedIdsOf)
  then have "y \<in> set afkl" "u \<in> set (usersToAddOf g afkl glab)"
    using in_AddPlan [of y g afkl glab] by auto
  with y show "u \<in> (set (Users g) \<inter> set (federatedIdsOf afkl)) - set (glabgroupUidsOf afkl glab)"
    by (auto simp: set_usersToAddOf in_federatedIdsOf)
next
  fix u assume u: "u \<in> (set (Users g) \<inter> set (federatedIdsOf afkl)) - set (glabgroupUidsOf afkl glab)"
  then obtain y s where y: "y \<in> set afkl" "GroupSAMLIdentity y = Some s" "u = ExternUID s"
    by (auto simp: in_federatedIdsOf)
  from u have "u \<in> set (usersToAddOf g afkl glab)"
    by (simp add: set_usersToAddOf in_afklUidsOf)
  with y have "y \<in> set (AddPlan (reconcile g afkl glab))"
    using AddPlan_complete [OF assms, of y s] by simp
  with y show "u \<in> set (federatedIdsOf (AddPlan (reconcile g afkl glab)))"
    by (auto simp: in_federatedIdsOf)
qed

lemma RemovePlan_ids:
  assumes "failure (reconcile g afkl glab) = None"
  shows "SAMLID ` set (RemovePlan (reconcile g afkl glab)) =
           set (Deprovisioned g) \<inter> set (glabgroupUidsOf afkl glab)"
proof (rule set_eqI, rule iffI)
  fix u assume "u \<in> SAMLID ` set (RemovePlan (reconcile g afkl glab))"
  then have "u \<in> set (usersToRemoveOf g afkl glab)"
    using in_RemovePlan by blast
  then show "u \<in> set (Deprovisioned g) \<inter> set (glabgroupUidsOf afkl glab)"
    by (simp add: set_usersToRemoveOf)
next
  fix u assume u: "u \<in> set (Deprovisioned g) \<inter> set (glabgroupUidsOf afkl glab)"
  then obtain member where m: "member \<in> set (glabgroupMembersOf afkl glab)" "u = SAMLID member"
    by (auto simp: glabgroupUidsOf_SAMLID)
  from u have "u \<in> set (usersToRemoveOf g afkl glab)" by (simp add: set_usersToRemoveOf)
  with m have "member \<in> set (RemovePlan (reconcile g afkl glab))"
    using RemovePlan_complete [OF assms, of member] by simp
  with m show "u \<in> SAMLID ` set (RemovePlan (reconcile g afkl glab))" by blast
qed

lemma in_glabgroupUidsOf_ids:
  "u \<in> set (glabgroupUidsOf afkl glab) \<longleftrightarrow>
     (\<exists>v s. v \<in> set afkl \<and> ID v \<in> ID ` set glab \<and> GroupSAMLIdentity v = Some s \<and> u = ExternUID s)"
  unfolding in_glabgroupUidsOf by (auto simp: image_iff)

lemma same_ID_same_account:
  assumes "distinct (map ID afkl)" and "v \<in> set afkl" and "w \<in> set afkl" and "ID v = ID w"
  shows "v = w"
  using assms by (meson distinct_map inj_on_def)

lemma removed_ids:
  assumes "member \<in> set (RemovePlan (reconcile g afkl glab))"
  shows "\<exists>v s. v \<in> set afkl \<and> ID v = ID (User member) \<and> GroupSAMLIdentity v = Some s \<and>
           ExternUID s \<in> set (Deprovisioned g) \<and> ExternUID s \<in> set (glabgroupUidsOf afkl glab) \<and>
           User member \<in> set glab"
proof -
  from in_RemovePlan [OF assms]
  have m: "member \<in> set (glabgroupMembersOf afkl glab)"
    and r: "SAMLID member \<in> set (usersToRemoveOf g afkl glab)" by simp_all
  from m obtain v s where "User member \<in> set glab" "v \<in> set afkl" "ID v = ID (User member)"
      "GroupSAMLIdentity v = Some s" "SAMLID member = ExternUID s"
    by (auto simp: in_glabgroupMembersOf)
  with r show ?thesis by (auto simp: set_usersToRemoveOf)
qed

lemma reconcile_nothing_to_do:
  assumes "usersToAddOf g afkl glab = []" and "usersToRemoveOf g afkl glab = []"
  shows "reconcile g afkl glab = \<lparr>AddPlan = [], RemovePlan = [], failure = None\<rparr>"
  using assms by (simp add: reconcile_def)

lemma second_pass_nothing_to_do:
  assumes disj: "set (Users g) \<inter> set (Deprovisioned g) = {}"
    and dist: "distinct (map ID afkl)"
    and fin: "failure (reconcile g afkl glab) = None"
    and ids: "ID ` set glab' =
        (ID ` set glab \<union> ID ` set (AddPlan (reconcile g afkl glab))) -
        (\<lambda>member. ID (User member)) ` set (RemovePlan (reconcile g afkl glab))"
  shows "usersToAddOf g afkl glab' = [] \<and> usersToRemoveOf g afkl glab' = []"
proof
  have "u \<in> set (glabgroupUidsOf afkl glab')"
    if u: "u \<in> set (Users g)" "u \<in> set (afklUidsOf afkl)" for u
  proof (cases "u \<in> set (glabgroupUidsOf afkl glab)")
    case True
    then obtain v s where v: "v \<in> set afkl" "ID v \<in> ID ` set glab"
        "GroupSAMLIdentity v = Some s" "u = ExternUID s"
      by (auto simp: in_glabgroupUidsOf_ids)
    have "ID v \<notin> (\<lambda>member. ID (User member)) ` set (RemovePlan (reconcile g afkl glab))"
    proof
      assume "ID v \<in> (\<lambda>member. ID (User member)) ` set (RemovePlan (reconcile g afkl glab))"
      then obtain member where "member \<in> set (RemovePlan (reconcile g afkl glab))"
          "ID v = ID (User member)" by auto
      with removed_ids [of member g afkl glab] obtain v' s' where
          "v' \<in> set afkl" "ID v' = ID v" "GroupSAMLIdentity v' = Some s'"
          "ExternUID s' \<in> set (Deprovisioned g)" by auto
      with v same_ID_same_account [OF dist, of v' v] have "u \<in> set (Deprovisioned g)" by auto
      with u(1) disj show False by auto
    qed
    with v(2) ids have "ID v \<in> ID ` set glab'" by simp
    with v show ?thesis by (auto simp: in_glabgroupUidsOf_ids)
  next
    case False
    with u have add: "u \<in> set (usersToAddOf g afkl glab)" by (simp add: set_usersToAddOf)
    then have "usersToAddOf g afkl glab \<noteq> []" by auto
    with fin have nonil: "\<forall>y \<in> set afkl. GroupSAMLIdentity y \<noteq> None"
      by (auto simp: reconcile_failure_iff split: if_splits)
    with u(2) obtain y s where y: "y \<in> set afkl" "GroupSAMLIdentity y = Some s" "u = ExternUID s"
      by (auto simp: in_afklUidsOf in_federatedIdsOf)
    with add have "y \<in> set (AddPlan (reconcile g afkl glab))"
      using AddPlan_complete [OF fin, of y s] by simp
    moreover have "ID y \<notin> (\<lambda>member. ID (User member)) ` set (RemovePlan (reconcile g afkl glab))"
    proof
      assume "ID y \<in> (\<lambda>member. ID (User member)) ` set (RemovePlan (reconcile g afkl glab))"
      then obtain member where "member \<in> set (RemovePlan (reconcile g afkl glab))"
          "ID y = ID (User member)" by auto
      with removed_ids [of member g afkl glab] obtain v' s' where
          "v' \<in> set afkl" "ID v' = ID y" "GroupSAMLIdentity v' = Some s'"
          "ExternUID s' \<in> set (glabgroupUidsOf afkl glab)" by auto
      with y same_ID_same_account [OF dist, of v' y] have "u \<in> set (glabgroupUidsOf afkl glab)"
        by auto
      with False show False by simp
    qed
    ultimately have "ID y \<in> ID ` set glab'" using ids by simp
    with y show ?thesis by (auto simp: in_glabgroupUidsOf_ids)
  qed
  then have "set (usersToAddOf g afkl glab') = {}"
    by (auto simp: set_usersToAddOf)
  then show "usersToAddOf g afkl glab' = []" by simp
next
  have "u \<notin> set (Deprovisioned g)" if u: "u \<in> set (glabgroupUidsOf afkl glab')" for u
  proof
    assume dep: "u \<in> set (Deprovisioned g)"
    from u obtain v s where v: "v \<in> set afkl" "ID v \<in> ID ` set glab'"
        "GroupSAMLIdentity v = Some s" "u = ExternUID s"
      by (auto simp: in_glabgroupUidsOf_ids)
    from v(2) ids have notrem:
        "ID v \<notin> (\<lambda>member. ID (User member)) ` set (RemovePlan (reconcile g afkl glab))"
      and cases: "ID v \<in> ID ` set glab \<or> ID v \<in> ID ` set (AddPlan (reconcile g afkl glab))"
      by auto
    from cases show False
    proof
      assume "ID v \<in> ID ` set glab"
      then obtain glm where glm: "glm \<in> set glab" "ID v = ID glm" by auto
      with v have "\<lparr>User = glm, SAMLID = u\<rparr> \<in> set (glabgroupMembersOf afkl glab)"
        by (auto simp: in_glabgroupMembersOf)
      moreover from this have "u \<in> set (glabgroupUidsOf afkl glab)"
        unfolding glabgroupUidsOf_SAMLID by force
      with dep have "SAMLID \<lparr>User = glm, SAMLID = u\<rparr> \<in> set (usersToRemoveOf g afkl glab)"
        by (simp add: set_usersToRemoveOf)
      ultimately have "\<lparr>User = glm, SAMLID = u\<rparr> \<in> set (RemovePlan (reconcile g afkl glab))"
        by (rule RemovePlan_complete [OF fin])
      then have "ID (User \<lparr>User = glm, SAMLID = u\<rparr>) \<in>
          (\<lambda>member. ID (User member)) ` set (RemovePlan (reconcile g afkl glab))"
        by (rule imageI)
      with glm notrem show False by simp
    next
      assume "ID v \<in> ID ` set (AddPlan (reconcile g afkl glab))"
      then obtain y where y: "y \<in> set (AddPlan (reconcile g afkl glab))" "ID v = ID y" by auto
      from in_AddPlan [OF y(1)] obtain s' where y': "y \<in> set afkl"
          "GroupSAMLIdentity y = Some s'" "ExternUID s' \<in> set (usersToAddOf g afkl glab)" by auto
      with v y same_ID_same_account [OF dist, of v y] have "u \<in> set (usersToAddOf g afkl glab)"
        by auto
      then have "u \<in> set (Users g)" by (simp add: set_usersToAddOf)
      with dep disj show False by auto
    qed
  qed
  then have "set (usersToRemoveOf g afkl glab') = {}"
    by (auto simp: set_usersToRemoveOf)
  then show "usersToRemoveOf g afkl glab' = []" by simp
qed

lemma applyPlans_ids:
  "ID ` set (applyPlans glab out) =
     (ID ` set glab \<union> ID ` set (AddPlan out)) - (\<lambda>member. ID (User member)) ` set (RemovePlan out)"
proof (rule set_eqI, rule iffI)
  fix i assume "i \<in> ID ` set (applyPlans glab out)"
  then obtain m where m: "m \<in> set (applyPlans glab out)" "i = ID m" by auto
  then have keep: "ID m \<notin> (\<lambda>member. ID (User member)) ` set (RemovePlan out)"
    and src: "m \<in> set glab \<or> (\<exists>y \<in> set (AddPlan out). m = y\<lparr>AccessLevel := DeveloperPermissions\<rparr>)"
    by (auto simp: applyPlans_def)
  from src have "ID m \<in> ID ` set glab \<union> ID ` set (AddPlan out)" by auto
  with keep m show "i \<in> (ID ` set glab \<union> ID ` set (AddPlan out)) -
      (\<lambda>member. ID (User member)) ` set (RemovePlan out)" by simp
next
  fix i assume i: "i \<in> (ID ` set glab \<union> ID ` set (AddPlan out)) -
      (\<lambda>member. ID (User member)) ` set (RemovePlan out)"
  then have keep: "i \<notin> (\<lambda>member. ID (User member)) ` set (RemovePlan out)" by simp
  from i have "i \<in> ID ` set glab \<or> i \<in> ID ` set (AddPlan out)" by auto
  then show "i \<in> ID ` set (applyPlans glab out)"
  proof
    assume "i \<in> ID ` set glab"
    then obtain m where "m \<in> set glab" "i = ID m" by auto
    with keep have "m \<in> set (applyPlans glab out)" by (auto simp: applyPlans_def)
    with \<open>i = ID m\<close> show ?thesis by auto
  next
    assume "i \<in> ID ` set (AddPlan out)"
    then obtain y where y: "y \<in> set (AddPlan out)" "i = ID y" by auto
    with keep have "y\<lparr>AccessLevel := DeveloperPermissions\<rparr> \<in> set (applyPlans glab out)"
      by (auto simp: applyPlans_def)
    then have "ID (y\<lparr>AccessLevel := DeveloperPermissions\<rparr>) \<in> ID ` set (applyPlans glab out)"
      by (rule imageI)
    with y show ?thesis by simp
  qed
qed

lemma SAMLID_joined:
  "map SAMLID (joined glm vs) = federatedIdsOf (filter (\<lambda>v. ID v = ID glm) vs)"
  by (induction vs) (auto simp: federatedIdsOf_def split: option.splits)

lemma glabgroupUidsOf_resolved: "glabgroupUidsOf afkl glab = resolvedIdsOf afkl glab"
  by (simp add: glabgroupUidsOf_SAMLID glabgroupMembersOf_concat resolvedIdsOf_def
        map_concat comp_def SAMLID_joined)

lemma AddPlan_ids_subset:
  "set (federatedIdsOf (AddPlan (reconcile g afkl glab))) \<subseteq>
     (set (Users g) \<inter> set (federatedIdsOf afkl)) - set (glabgroupUidsOf afkl glab)"
proof
  fix u assume "u \<in> set (federatedIdsOf (AddPlan (reconcile g afkl glab)))"
  then obtain y s where y: "y \<in> set (AddPlan (reconcile g afkl glab))"
      "GroupSAMLIdentity y = Some s" "u = ExternUID s"
    by (auto simp: in_federatedIdsOf)
  then have "y \<in> set afkl" "u \<in> set (usersToAddOf g afkl glab)"
    using in_AddPlan [of y g afkl glab] by auto
  with y show "u \<in> (set (Users g) \<inter> set (federatedIdsOf afkl)) - set (glabgroupUidsOf afkl glab)"
    by (auto simp: set_usersToAddOf in_federatedIdsOf)
qed

lemma RemovePlan_ids_subset:
  "SAMLID ` set (RemovePlan (reconcile g afkl glab)) \<subseteq>
     set (Deprovisioned g) \<inter> set (glabgroupUidsOf afkl glab)"
proof
  fix u assume "u \<in> SAMLID ` set (RemovePlan (reconcile g afkl glab))"
  then have "u \<in> set (usersToRemoveOf g afkl glab)"
    using in_RemovePlan by blast
  then show "u \<in> set (Deprovisioned g) \<inter> set (glabgroupUidsOf afkl glab)"
    by (simp add: set_usersToRemoveOf)
qed















section \<open>The claims\<close>

subsection \<open>C1\<close>

text \<open>
  C1, as stated, fails on Example 2 itself when \<open>b2\<close> is an account of its own: a member
  of the dev group that carries \<open>u2\<close> but has no AFKL-MCP account. The code reads the
  identifier of a dev group member from the AFKL-MCP account with the same account id
  only, so it resolves no identifier for \<open>b2\<close>: \<open>a1\<close> is added and nothing is removed,
  although \<open>u2\<close> is deprovisioned and is the identifier of an access member.
\<close>

theorem access_member_outside_entitlement_kept:
  "reconcile (oktaGroup [''u1''] [''u2'']) [account 1 ''u1'', account 2 ''u2'']
     [\<lparr>ID = 3, AccessLevel = 30, GroupSAMLIdentity = Some \<lparr>ExternUID = ''u2''\<rparr>\<rparr>] =
     \<lparr>AddPlan = [account 1 ''u1''], RemovePlan = [], failure = None\<rparr> \<and>
   set (Deprovisioned (oktaGroup [''u1''] [''u2''])) \<inter>
     set (federatedIdsOf [\<lparr>ID = 3, AccessLevel = 30, GroupSAMLIdentity = Some \<lparr>ExternUID = ''u2''\<rparr>\<rparr>]) =
     {''u2''}"
  by (simp add: run_simps federatedIdsOf_def)

text \<open>
  C1, amended. The identifiers of the accounts added always lie in the difference
  between (the intersection of the Okta group's active users with the identifiers of the
  AFKL-MCP accounts) and the identifiers resolved for the dev group's members, and the
  identifiers of the members removed always lie in the intersection of the deprovisioned
  users with the identifiers resolved for the dev group's members; in a pass that
  completes they are exactly these sets. The identifier resolved for a member of the dev
  group is that of the AFKL-MCP account with the same account id. In Example 2 with
  \<open>b2\<close> the dev group's membership of the account \<open>a2\<close>, account \<open>a1\<close> is added and
  the membership \<open>b2\<close> is removed.
\<close>

theorem reconcile_plan_identifiers:
  "set (federatedIdsOf (AddPlan (reconcile g afkl glab))) \<subseteq>
     (set (Users g) \<inter> set (federatedIdsOf afkl)) - set (resolvedIdsOf afkl glab) \<and>
   SAMLID ` set (RemovePlan (reconcile g afkl glab)) \<subseteq>
     set (Deprovisioned g) \<inter> set (resolvedIdsOf afkl glab) \<and>
   (failure (reconcile g afkl glab) = None \<longrightarrow>
      set (federatedIdsOf (AddPlan (reconcile g afkl glab))) =
        (set (Users g) \<inter> set (federatedIdsOf afkl)) - set (resolvedIdsOf afkl glab) \<and>
      SAMLID ` set (RemovePlan (reconcile g afkl glab)) =
        set (Deprovisioned g) \<inter> set (resolvedIdsOf afkl glab)) \<and>
   reconcile (oktaGroup [''u1''] [''u2'']) [account 1 ''u1'', account 2 ''u2''] [devMember 2] =
     \<lparr>AddPlan = [account 1 ''u1''],
      RemovePlan = [\<lparr>User = devMember 2, SAMLID = ''u2''\<rparr>],
      failure = None\<rparr>"
proof -
  have "reconcile (oktaGroup [''u1''] [''u2'']) [account 1 ''u1'', account 2 ''u2''] [devMember 2] =
     \<lparr>AddPlan = [account 1 ''u1''],
      RemovePlan = [\<lparr>User = devMember 2, SAMLID = ''u2''\<rparr>],
      failure = None\<rparr>"
    by (simp add: run_simps)
  then show ?thesis
    using AddPlan_ids [of g afkl glab] RemovePlan_ids [of g afkl glab]
      AddPlan_ids_subset [of g afkl glab] RemovePlan_ids_subset [of g afkl glab]
    by (simp add: glabgroupUidsOf_resolved)
qed

theorem reconcile_plan_identifiers_witness:
  "failure (reconcile (oktaGroup [''u1'', ''u2''] [''u3''])
     [account 1 ''u1'', account 2 ''u2'', account 3 ''u3''] [devMember 2, devMember 3]) = None \<and>
   set (federatedIdsOf (AddPlan (reconcile (oktaGroup [''u1'', ''u2''] [''u3''])
     [account 1 ''u1'', account 2 ''u2'', account 3 ''u3''] [devMember 2, devMember 3]))) = {''u1''} \<and>
   SAMLID ` set (RemovePlan (reconcile (oktaGroup [''u1'', ''u2''] [''u3''])
     [account 1 ''u1'', account 2 ''u2'', account 3 ''u3''] [devMember 2, devMember 3])) = {''u3''}"
proof -
  have fin: "failure (reconcile (oktaGroup [''u1'', ''u2''] [''u3''])
     [account 1 ''u1'', account 2 ''u2'', account 3 ''u3''] [devMember 2, devMember 3]) = None"
    by (simp add: run_simps)
  have res: "resolvedIdsOf [account 1 ''u1'', account 2 ''u2'', account 3 ''u3'']
      [devMember 2, devMember 3] = [''u2'', ''u3'']"
    by (simp add: resolvedIdsOf_def federatedIdsOf_def account_def devMember_def)
  have ids: "(set (Users (oktaGroup [''u1'', ''u2''] [''u3''])) \<inter>
         set (federatedIdsOf [account 1 ''u1'', account 2 ''u2'', account 3 ''u3''])) -
        set (resolvedIdsOf [account 1 ''u1'', account 2 ''u2'', account 3 ''u3'']
               [devMember 2, devMember 3]) = {''u1''}"
    unfolding res by (auto simp: oktaGroup_def federatedIdsOf_def account_def)
  have dep: "set (Deprovisioned (oktaGroup [''u1'', ''u2''] [''u3''])) \<inter>
        set (resolvedIdsOf [account 1 ''u1'', account 2 ''u2'', account 3 ''u3'']
               [devMember 2, devMember 3]) = {''u3''}"
    unfolding res by (auto simp: oktaGroup_def)
  from reconcile_plan_identifiers [of "oktaGroup [''u1'', ''u2''] [''u3'']"
      "[account 1 ''u1'', account 2 ''u2'', account 3 ''u3'']" "[devMember 2, devMember 3]"]
    fin ids dep
  show ?thesis by simp
qed

subsection \<open>C2\<close>

text \<open>
  C2, as stated, fails: with an identifier that is both active and deprovisioned, held
  by a member of the dev group, the first pass removes the member and the second pass,
  on the membership so changed, adds the account again.
\<close>

theorem second_pass_adds_removed_user:
  "reconcile (oktaGroup [''u1''] [''u1'']) [account 1 ''u1''] [devMember 1] =
     \<lparr>AddPlan = [], RemovePlan = [\<lparr>User = devMember 1, SAMLID = ''u1''\<rparr>], failure = None\<rparr> \<and>
   applyPlans [devMember 1]
     (reconcile (oktaGroup [''u1''] [''u1'']) [account 1 ''u1''] [devMember 1]) = [] \<and>
   reconcile (oktaGroup [''u1''] [''u1'']) [account 1 ''u1'']
     (applyPlans [devMember 1]
        (reconcile (oktaGroup [''u1''] [''u1'']) [account 1 ''u1''] [devMember 1])) =
     \<lparr>AddPlan = [account 1 ''u1''], RemovePlan = [], failure = None\<rparr>"
  by (simp add: run_simps)

text \<open>
  C2, amended. When the active and the deprovisioned users of the Okta group are
  disjoint, the AFKL-MCP accounts have distinct ids and the first pass completes, then a
  second pass on the dev group's membership after the first pass's adds and removals,
  with the other inputs unchanged, completes with nothing to add and nothing to remove.
\<close>

theorem reconcile_idempotent:
  assumes "set (Users g) \<inter> set (Deprovisioned g) = {}"
    and "distinct (map ID afkl)"
    and "failure (reconcile g afkl glab) = None"
  shows "reconcile g afkl (applyPlans glab (reconcile g afkl glab)) =
           \<lparr>AddPlan = [], RemovePlan = [], failure = None\<rparr>"
proof -
  have "usersToAddOf g afkl (applyPlans glab (reconcile g afkl glab)) = [] \<and>
        usersToRemoveOf g afkl (applyPlans glab (reconcile g afkl glab)) = []"
    using assms by (rule second_pass_nothing_to_do) (rule applyPlans_ids)
  then show ?thesis by (simp add: reconcile_nothing_to_do)
qed

theorem reconcile_idempotent_witness:
  "reconcile (oktaGroup [''u1''] [''u2'']) [account 1 ''u1'', account 2 ''u2''] [devMember 2] =
     \<lparr>AddPlan = [account 1 ''u1''],
      RemovePlan = [\<lparr>User = devMember 2, SAMLID = ''u2''\<rparr>], failure = None\<rparr> \<and>
   applyPlans [devMember 2]
     (reconcile (oktaGroup [''u1''] [''u2'']) [account 1 ''u1'', account 2 ''u2''] [devMember 2]) =
     [(account 1 ''u1'')\<lparr>AccessLevel := DeveloperPermissions\<rparr>] \<and>
   reconcile (oktaGroup [''u1''] [''u2'']) [account 1 ''u1'', account 2 ''u2'']
     (applyPlans [devMember 2]
        (reconcile (oktaGroup [''u1''] [''u2'']) [account 1 ''u1'', account 2 ''u2''] [devMember 2])) =
     \<lparr>AddPlan = [], RemovePlan = [], failure = None\<rparr>"
proof -
  have run: "reconcile (oktaGroup [''u1''] [''u2'']) [account 1 ''u1'', account 2 ''u2''] [devMember 2] =
     \<lparr>AddPlan = [account 1 ''u1''],
      RemovePlan = [\<lparr>User = devMember 2, SAMLID = ''u2''\<rparr>], failure = None\<rparr>"
    by (simp add: run_simps)
  have a: "set (Users (oktaGroup [''u1''] [''u2''])) \<inter>
           set (Deprovisioned (oktaGroup [''u1''] [''u2''])) = {}"
    by (simp add: oktaGroup_def)
  have b: "distinct (map ID [account 1 ''u1'', account 2 ''u2''])"
    by (simp add: account_def)
  have c: "failure (reconcile (oktaGroup [''u1''] [''u2''])
      [account 1 ''u1'', account 2 ''u2''] [devMember 2]) = None"
    by (simp add: run)
  have d: "applyPlans [devMember 2]
     (reconcile (oktaGroup [''u1''] [''u2'']) [account 1 ''u1'', account 2 ''u2''] [devMember 2]) =
     [(account 1 ''u1'')\<lparr>AccessLevel := DeveloperPermissions\<rparr>]"
    by (simp add: run) (simp add: applyPlans_def account_def devMember_def)
  from reconcile_idempotent [OF a b c] run d show ?thesis by simp
qed

text \<open>
  The distinct ids are needed: with two AFKL-MCP records of one account id, one carrying
  an active and one a deprovisioned identifier, the first pass adds the account and the
  second removes it.
\<close>

lemma duplicate_account_ids_break_idempotence:
  "set (Users (oktaGroup [''u1''] [''u2''])) \<inter> set (Deprovisioned (oktaGroup [''u1''] [''u2''])) = {} \<and>
   reconcile (oktaGroup [''u1''] [''u2'']) [account 1 ''u1'', account 1 ''u2''] [] =
     \<lparr>AddPlan = [account 1 ''u1''], RemovePlan = [], failure = None\<rparr> \<and>
   reconcile (oktaGroup [''u1''] [''u2'']) [account 1 ''u1'', account 1 ''u2'']
     (applyPlans [] (reconcile (oktaGroup [''u1''] [''u2'']) [account 1 ''u1'', account 1 ''u2''] [])) =
     \<lparr>AddPlan = [],
      RemovePlan = [\<lparr>User = (account 1 ''u1'')\<lparr>AccessLevel := 30\<rparr>, SAMLID = ''u2''\<rparr>],
      failure = None\<rparr>"
  by (simp add: run_simps)

subsection \<open>C3\<close>

text \<open>
  C3. Every account the pass adds (also in a pass that later panics) is an account of the
  AFKL-MCP list with an identity whose identifier is among the Okta group's active users
  and among the identifiers of the AFKL-MCP accounts. So an identifier of an active user
  that no AFKL-MCP account carries is never the identifier of an added account.
\<close>

theorem AddPlan_no_phantom_grants:
  "(\<forall>y \<in> set (AddPlan (reconcile g afkl glab)).
      y \<in> set afkl \<and>
      (\<exists>s. GroupSAMLIdentity y = Some s \<and> ExternUID s \<in> set (Users g) \<and>
           ExternUID s \<in> set (federatedIdsOf afkl))) \<and>
   (\<forall>u. u \<in> set (Users g) \<and> u \<notin> set (federatedIdsOf afkl) \<longrightarrow>
        u \<notin> set (federatedIdsOf (AddPlan (reconcile g afkl glab))))"
proof -
  have part1: "y \<in> set afkl \<and>
      (\<exists>s. GroupSAMLIdentity y = Some s \<and> ExternUID s \<in> set (Users g) \<and>
           ExternUID s \<in> set (federatedIdsOf afkl))"
    if "y \<in> set (AddPlan (reconcile g afkl glab))" for y
  proof -
    from that obtain s where y: "y \<in> set afkl" "GroupSAMLIdentity y = Some s"
        "ExternUID s \<in> set (usersToAddOf g afkl glab)"
      using in_AddPlan by blast
    then have "ExternUID s \<in> set (Users g)" by (simp add: set_usersToAddOf)
    moreover have "ExternUID s \<in> set (federatedIdsOf afkl)"
      using y by (auto simp: in_federatedIdsOf)
    ultimately show ?thesis using y by simp
  qed
  have part2: "u \<notin> set (federatedIdsOf (AddPlan (reconcile g afkl glab)))"
    if u: "u \<in> set (Users g) \<and> u \<notin> set (federatedIdsOf afkl)" for u
  proof
    assume "u \<in> set (federatedIdsOf (AddPlan (reconcile g afkl glab)))"
    then obtain y s where "y \<in> set (AddPlan (reconcile g afkl glab))"
        "GroupSAMLIdentity y = Some s" "u = ExternUID s"
      by (auto simp: in_federatedIdsOf)
    then have "u \<in> set (federatedIdsOf afkl)"
      using part1 [of y] by auto
    with u show False by simp
  qed
  from part1 part2 show ?thesis by blast
qed

theorem AddPlan_no_phantom_grants_witness:
  "AddPlan (reconcile (oktaGroup [''u1'', ''u2'', ''u4''] [])
              [account 1 ''u1'', account 2 ''u2'', account 3 ''u3''] []) =
     [account 1 ''u1'', account 2 ''u2''] \<and>
   ''u4'' \<notin> set (federatedIdsOf (AddPlan (reconcile (oktaGroup [''u1'', ''u2'', ''u4''] [])
              [account 1 ''u1'', account 2 ''u2'', account 3 ''u3''] [])))"
proof -
  have "''u4'' \<in> set (Users (oktaGroup [''u1'', ''u2'', ''u4''] [])) \<and>
        ''u4'' \<notin> set (federatedIdsOf [account 1 ''u1'', account 2 ''u2'', account 3 ''u3''])"
    by (simp add: oktaGroup_def federatedIdsOf_def account_def)
  with AddPlan_no_phantom_grants [of "oktaGroup [''u1'', ''u2'', ''u4''] []"
         "[account 1 ''u1'', account 2 ''u2'', account 3 ''u3'']" "[]"]
  have "''u4'' \<notin> set (federatedIdsOf (AddPlan (reconcile (oktaGroup [''u1'', ''u2'', ''u4''] [])
              [account 1 ''u1'', account 2 ''u2'', account 3 ''u3''] [])))"
    by blast
  moreover have "AddPlan (reconcile (oktaGroup [''u1'', ''u2'', ''u4''] [])
              [account 1 ''u1'', account 2 ''u2'', account 3 ''u3''] []) =
     [account 1 ''u1'', account 2 ''u2'']"
    by (simp add: run_simps)
  ultimately show ?thesis by simp
qed

subsection \<open>C4\<close>

text \<open>
  C4. The identifiers of the accounts added and the identifiers of the members removed
  in one pass are disjoint, whether or not the active and the deprovisioned users of the
  Okta group overlap: an added identifier is outside \<^verbatim>\<open>glabgroupUids\<close>, a removed one
  inside.
\<close>

theorem plans_disjoint:
  "set (federatedIdsOf (AddPlan (reconcile g afkl glab))) \<inter>
   SAMLID ` set (RemovePlan (reconcile g afkl glab)) = {}"
proof -
  have False if add: "u \<in> set (federatedIdsOf (AddPlan (reconcile g afkl glab)))"
    and rem: "u \<in> SAMLID ` set (RemovePlan (reconcile g afkl glab))" for u
  proof -
    from add obtain y s where "y \<in> set (AddPlan (reconcile g afkl glab))"
        "GroupSAMLIdentity y = Some s" "u = ExternUID s"
      by (auto simp: in_federatedIdsOf)
    then have "u \<in> set (usersToAddOf g afkl glab)"
      using in_AddPlan [of y g afkl glab] by auto
    then have "u \<notin> set (glabgroupUidsOf afkl glab)" by (simp add: set_usersToAddOf)
    moreover from rem have "u \<in> set (usersToRemoveOf g afkl glab)"
      using in_RemovePlan by blast
    then have "u \<in> set (glabgroupUidsOf afkl glab)" by (simp add: set_usersToRemoveOf)
    ultimately show False by simp
  qed
  then show ?thesis by blast
qed

theorem plans_disjoint_witness:
  "federatedIdsOf (AddPlan (reconcile (oktaGroup [''u1'', ''u2''] [''u2''])
       [account 1 ''u1'', account 2 ''u2''] [devMember 2])) = [''u1''] \<and>
   map SAMLID (RemovePlan (reconcile (oktaGroup [''u1'', ''u2''] [''u2''])
       [account 1 ''u1'', account 2 ''u2''] [devMember 2])) = [''u2''] \<and>
   set (federatedIdsOf (AddPlan (reconcile (oktaGroup [''u1'', ''u2''] [''u2''])
       [account 1 ''u1'', account 2 ''u2''] [devMember 2]))) \<inter>
   SAMLID ` set (RemovePlan (reconcile (oktaGroup [''u1'', ''u2''] [''u2''])
       [account 1 ''u1'', account 2 ''u2''] [devMember 2])) = {}"
  using plans_disjoint [of "oktaGroup [''u1'', ''u2''] [''u2'']"
      "[account 1 ''u1'', account 2 ''u2'']" "[devMember 2]"]
  by (simp add: run_simps federatedIdsOf_def)

subsection \<open>C5\<close>

text \<open>
  C5, as stated, fails: a member at the grant level itself, \<^verbatim>\<open>DeveloperPermissions\<close>,
  passes the filter \<^verbatim>\<open>u.AccessLevel < 50\<close> and is admitted.
\<close>

theorem GetGitlabGroupMembers_admits_grant_level:
  "GetGitlabGroupMembers (Inr [\<lparr>Group_ID = 7\<rparr>])
     (everyGroupHas [\<lparr>ID = 1, AccessLevel = 30, GroupSAMLIdentity = None\<rparr>]) =
     Inr ([\<lparr>ID = 1, AccessLevel = 30, GroupSAMLIdentity = None\<rparr>], 7) \<and>
   \<not> AccessLevel \<lparr>ID = 1, AccessLevel = 30, GroupSAMLIdentity = None\<rparr> < DeveloperPermissions"
  by (simp add: GetGitlabGroupMembers_Cons everyGroupHas_def DeveloperPermissions_def)

text \<open>
  C5, amended. Every account that \<^verbatim>\<open>GetGitlabGroupMembers\<close> admits into the
  AFKL-MCP view or into a dev group's view has an access level strictly below 50: the
  members returned are exactly the fetched members below 50, in the order fetched, so an
  account at 50 or above is filtered out before the pass, and every fetched account at
  the grant level is admitted.
\<close>

theorem GetGitlabGroupMembers_below_owner:
  assumes "GetGitlabGroupMembers listGroups listAllGroupMembers = Inr (members, gid)"
  shows "\<exists>users. listAllGroupMembers gid = Inr users \<and>
           members = filter (\<lambda>u. AccessLevel u < 50) users \<and>
           list_all (\<lambda>u. AccessLevel u < 50) members \<and>
           filter (\<lambda>u. AccessLevel u = DeveloperPermissions) members =
             filter (\<lambda>u. AccessLevel u = DeveloperPermissions) users"
proof (cases listGroups)
  case (Inl err)
  with assms show ?thesis by (simp add: GetGitlabGroupMembers_def)
next
  case (Inr groups)
  show ?thesis
  proof (cases groups)
    case Nil
    with Inr assms show ?thesis by (simp add: GetGitlabGroupMembers_def)
  next
    case (Cons g0 rest)
    with Inr assms show ?thesis
      by (auto simp: GetGitlabGroupMembers_Cons list_all_iff grant_level_passes split: sum.splits)
  qed
qed

theorem GetGitlabGroupMembers_below_owner_witness:
  "GetGitlabGroupMembers (Inr [\<lparr>Group_ID = 7\<rparr>])
     (everyGroupHas [\<lparr>ID = 1, AccessLevel = 30, GroupSAMLIdentity = None\<rparr>,
                     \<lparr>ID = 2, AccessLevel = 50, GroupSAMLIdentity = None\<rparr>,
                     \<lparr>ID = 3, AccessLevel = 40, GroupSAMLIdentity = None\<rparr>]) =
     Inr ([\<lparr>ID = 1, AccessLevel = 30, GroupSAMLIdentity = None\<rparr>,
           \<lparr>ID = 3, AccessLevel = 40, GroupSAMLIdentity = None\<rparr>], 7) \<and>
   list_all (\<lambda>u. AccessLevel u < 50)
     [\<lparr>ID = 1, AccessLevel = 30, GroupSAMLIdentity = None\<rparr>,
      \<lparr>ID = 3, AccessLevel = 40, GroupSAMLIdentity = None\<rparr>]"
proof -
  have run: "GetGitlabGroupMembers (Inr [\<lparr>Group_ID = 7\<rparr>])
      (everyGroupHas [\<lparr>ID = 1, AccessLevel = 30, GroupSAMLIdentity = None\<rparr>,
                    \<lparr>ID = 2, AccessLevel = 50, GroupSAMLIdentity = None\<rparr>,
                    \<lparr>ID = 3, AccessLevel = 40, GroupSAMLIdentity = None\<rparr>]) =
      Inr ([\<lparr>ID = 1, AccessLevel = 30, GroupSAMLIdentity = None\<rparr>,
            \<lparr>ID = 3, AccessLevel = 40, GroupSAMLIdentity = None\<rparr>], 7)"
    by (simp add: GetGitlabGroupMembers_Cons everyGroupHas_def)
  from GetGitlabGroupMembers_below_owner [OF run] run show ?thesis
    by blast
qed

subsection \<open>C6\<close>




text \<open>
  The identifiers of the Okta users have to be non-empty: under the empty identifier an
  account with an empty identifier is added and removed like any other.
\<close>


lemma empty_upstream_identifier_is_matched:
  "reconcile (oktaGroup [''''] []) [account 1 ''''] [] =
     \<lparr>AddPlan = [account 1 ''''], RemovePlan = [], failure = None\<rparr> \<and>
   reconcile (oktaGroup [] ['''']) [account 1 ''''] [devMember 1] =
     \<lparr>AddPlan = [], RemovePlan = [\<lparr>User = devMember 1, SAMLID = ''''\<rparr>], failure = None\<rparr>"
  by (simp add: run_simps)

subsection \<open>C7\<close>

text \<open>
  C7, at a failing input. The claim is that the pass completes without a panic also when
  the AFKL-MCP members include accounts with a nil identity. With one user to add and one
  member of AFKL-MCP with a nil identity, the add loop reads
  \<^verbatim>\<open>y.GroupSAMLIdentity.ExternUID\<close> of that member: the pass has added the first
  account and then ends in the nil-pointer dereference. The loops before it guard the
  same read with \<^verbatim>\<open>GroupSAMLIdentity != nil\<close>. The add loop of \<^verbatim>\<open>Psync\<close> in
  \<^verbatim>\<open>src/psync.go\<close> is the same code.
\<close>

theorem reconcile_nil_identity_panics:
  "reconcile \<lparr>OktaGroup_ID = ''g1'', Name = ''team'', Users = [''u1''], Deprovisioned = []\<rparr>
     [\<lparr>ID = 1, AccessLevel = 10, GroupSAMLIdentity = Some \<lparr>ExternUID = ''u1''\<rparr>\<rparr>,
      \<lparr>ID = 2, AccessLevel = 10, GroupSAMLIdentity = None\<rparr>]
     [] =
   \<lparr>AddPlan = [\<lparr>ID = 1, AccessLevel = 10, GroupSAMLIdentity = Some \<lparr>ExternUID = ''u1''\<rparr>\<rparr>],
    RemovePlan = [], failure = Some NilPointerDereference\<rparr>"
  by (simp add: run_simps)

subsection \<open>C8\<close>




subsection \<open>C9\<close>

text \<open>
  C9. The two operations of the correlator are deterministic given the order of their
  inputs: \<^verbatim>\<open>Intersection(a, b)\<close> is the items of \<open>b\<close> that occur in \<open>a\<close>, in the order
  of \<open>b\<close>, and \<^verbatim>\<open>Difference(a, b)\<close> is the items of \<open>a\<close> that do not occur in
  \<open>b\<close>, in the order of \<open>a\<close>. The output, order included, is a function of the two
  lists alone; the presence index is only looked up, so the iteration order of Go's map
  plays no part.
\<close>

theorem correlator_deterministic:
  "Intersection a b = filter (\<lambda>item. item \<in> set a) b \<and>
   Difference a b = filter (\<lambda>item. item \<notin> set b) a"
  by (simp add: Intersection_filter Difference_filter)

theorem correlator_deterministic_witness:
  "Intersection [''u1'', ''u2''] [''u3'', ''u2'', ''u1'', ''u2''] = [''u2'', ''u1'', ''u2''] \<and>
   Difference [''u3'', ''u2'', ''u1'', ''u3''] [''u2''] = [''u3'', ''u1'', ''u3'']"
  using correlator_deterministic [of "[''u1'', ''u2'']" "[''u3'', ''u2'', ''u1'', ''u2'']"]
        correlator_deterministic [of "[''u3'', ''u2'', ''u1'', ''u3'']" "[''u2'']"]
  by simp

subsection \<open>C10\<close>

text \<open>
  C10. \<^verbatim>\<open>GetGitlabGroupMembers\<close> takes the id of the first group the search returns:
  when the search succeeds with an empty list, the operation ends in the
  index-out-of-range panic, whatever the members service would answer; when the list is
  not empty, the id is that of its first element and the rest of the list is ignored.
  \<^verbatim>\<open>getGitlabGroupMembers\<close> of \<^verbatim>\<open>src/psync.go\<close> is the same code.
\<close>

theorem GetGitlabGroupMembers_empty_search_panics:
  "GetGitlabGroupMembers (Inr []) listAllGroupMembers = Inl IndexOutOfRange \<and>
   GetGitlabGroupMembers (Inr (g0 # rest)) listAllGroupMembers =
     (case listAllGroupMembers (Group_ID g0) of
        Inl err \<Rightarrow> Inl (CheckErr err)
      | Inr users \<Rightarrow> Inr (filter (\<lambda>u. AccessLevel u < 50) users, Group_ID g0))"
  by (simp add: GetGitlabGroupMembers_Cons) (simp add: GetGitlabGroupMembers_def)

end
